theory Spec2Isabelle
  imports Complex_Main "HOL-Library.State_Monad"
begin

section \<open>Python primitives used by the visual tracker\<close>

text \<open>
  The tracker computes with Python floats, IEEE 754 double precision. A finite double is
  the real number it denotes, so the values are reals; what differs from real arithmetic
  is that every operation rounds its result. Two levels are used.
  \<^item> \<open>calculate_direction_arrow\<close> is modelled in double precision: \<open>fl64\<close> below is
    rounding to the nearest double, ties to even.
  \<^item> \<open>is_heading_to_strategic_region\<close> is modelled over an arithmetic given as a
    parameter (\<open>bearing_with\<close>, \<open>heading_loop_with\<close>). Double precision with the
    platform's math library is one instance, exact real arithmetic another; the
    definitions \<open>bearing_to\<close>, \<open>heading_loop\<close> are the exact instance written out. The
    exact instance is used where a claim is about a range or about the result at a
    concrete input whose margin is far above rounding error.
\<close>

datatype py_error = IndexError

text \<open>\<open>int(x)\<close> on a float truncates toward zero.\<close>

definition py_int :: "real \<Rightarrow> int" where
  "py_int x = (if 0 \<le> x then \<lfloor>x\<rfloor> else \<lceil>x\<rceil>)"

text \<open>\<open>x % y\<close> in exact arithmetic, for a positive divisor: the result has the divisor's sign.\<close>

definition py_fmod :: "real \<Rightarrow> real \<Rightarrow> real" where
  "py_fmod x y = x - y * of_int \<lfloor>x / y\<rfloor>"

text \<open>\<open>xs[i]\<close>: a negative index counts from the end, anything else out of range raises.\<close>

definition py_index :: "'a list \<Rightarrow> int \<Rightarrow> py_error + 'a" where
  "py_index xs i =
     (if 0 \<le> i \<and> i < int (length xs) then Inr (xs ! nat i)
      else if i < 0 \<and> 0 \<le> int (length xs) + i then Inr (xs ! nat (int (length xs) + i))
      else Inl IndexError)"

text \<open>The functions of the \<open>math\<close> module, in exact arithmetic.\<close>

definition radians :: "real \<Rightarrow> real" where
  "radians d = d * pi / 180"

definition degrees :: "real \<Rightarrow> real" where
  "degrees r = r * 180 / pi"

text \<open>\<open>math.atan2(y, x)\<close>: the angle of the point \<open>(x, y)\<close> in \<open>(-pi, pi]\<close>, and 0 at the origin.\<close>

definition atan2 :: "real \<Rightarrow> real \<Rightarrow> real" where
  "atan2 y x =
     (if 0 < x then arctan (y / x)
      else if x < 0 then (if 0 \<le> y then arctan (y / x) + pi else arctan (y / x) - pi)
      else if 0 < y then pi / 2
      else if y < 0 then - (pi / 2)
      else 0)"

section \<open>Double precision\<close>

text \<open>
  Rounding to the nearest integer, ties to the even one; the exponent of the unit in the
  last place of a double with 53 significant bits, not below that of the subnormals; and
  rounding of a real to the nearest double. Overflow to infinity is not modelled: for
  finite arguments and the configured regions no operation of the two functions comes
  near the largest double (a sum with 22.5 or 360 rounds back to it, every other result
  is smaller than an argument or bounded by a constant).
\<close>

definition round_half_even :: "real \<Rightarrow> int" where
  "round_half_even x =
     (if x - of_int \<lfloor>x\<rfloor> < 1 / 2 then \<lfloor>x\<rfloor>
      else if 1 / 2 < x - of_int \<lfloor>x\<rfloor> then \<lfloor>x\<rfloor> + 1
      else if even \<lfloor>x\<rfloor> then \<lfloor>x\<rfloor>
      else \<lfloor>x\<rfloor> + 1)"

definition ulp_exp :: "real \<Rightarrow> int" where
  "ulp_exp x = max (\<lfloor>log 2 \<bar>x\<bar>\<rfloor> - 52) (- 1074)"

definition fl64 :: "real \<Rightarrow> real" where
  "fl64 x =
     (if x = 0 then 0
      else 2 powr of_int (ulp_exp x)
           * of_int (round_half_even (x / 2 powr of_int (ulp_exp x))))"

text \<open>The float operators \<open>+\<close>, \<open>-\<close>, \<open>*\<close>, \<open>/\<close>: the exact result, rounded once.\<close>

definition fadd :: "real \<Rightarrow> real \<Rightarrow> real" where
  "fadd x y = fl64 (x + y)"



definition fdiv :: "real \<Rightarrow> real \<Rightarrow> real" where
  "fdiv x y = fl64 (x / y)"


section \<open>The tracker object\<close>

record bbox =
  north :: real
  south :: real
  east :: real
  west :: real

record region =
  name :: string
  bounds :: bbox
  color :: string

text \<open>
  \<open>strategic_regions\<close> is a dict; its iteration order is its insertion order, so it is an
  association list here. The \<open>requests.Session\<close> held by the object is used for network
  calls only and is left out.
\<close>

record tracker =
  api_key :: string
  carrier_mmsi :: "(string \<times> string) list"
  strategic_regions :: "(string \<times> region) list"

definition VisualCarrierTracker :: "string option \<Rightarrow> tracker" where
  "VisualCarrierTracker key =
     \<lparr> api_key = (case key of None \<Rightarrow> ''YOUR_MARINETRAFFIC_API_KEY''
                   | Some k \<Rightarrow> if k = [] then ''YOUR_MARINETRAFFIC_API_KEY'' else k),
       carrier_mmsi =
         [(''USS Gerald R. Ford'', ''368123000''),
          (''USS Nimitz'', ''368456000''),
          (''USS Eisenhower'', ''368789000''),
          (''USS Abraham Lincoln'', ''368234000''),
          (''USS Carl Vinson'', ''368567000''),
          (''USS Theodore Roosevelt'', ''368890000'')],
       strategic_regions =
         [(''middle_east'',
             \<lparr> name = ''Middle East'',
               bounds = \<lparr> north = 40, south = 12, east = 65, west = 25 \<rparr>,
               color = ''red'' \<rparr>),
          (''indian_ocean'',
             \<lparr> name = ''Indian Ocean'',
               bounds = \<lparr> north = 25, south = - 40, east = 100, west = 40 \<rparr>,
               color = ''blue'' \<rparr>),
          (''east_asia'',
             \<lparr> name = ''East Asia/Western Pacific'',
               bounds = \<lparr> north = 50, south = 0, east = 150, west = 100 \<rparr>,
               color = ''green'' \<rparr>)] \<rparr>"

section \<open>calculate_direction_arrow\<close>

text \<open>
  The eight literals of \<open>directions\<close>, as the bytes of the source file. Each is three
  characters long and only the last character differs; in order they stand for the arrows
  N, NE, E, SE, S, SW, W, NW.
\<close>

definition directions :: "string list" where
  "directions =
     [[CHR 0xE2, CHR 0x80, CHR 0x9A, CHR 0xC3, CHR 0x9C, CHR 0xC3, CHR 0xAB],
      [CHR 0xE2, CHR 0x80, CHR 0x9A, CHR 0xC3, CHR 0x9C, CHR 0xC3, CHR 0xB3],
      [CHR 0xE2, CHR 0x80, CHR 0x9A, CHR 0xC3, CHR 0x9C, CHR 0xC3, CHR 0xAD],
      [CHR 0xE2, CHR 0x80, CHR 0x9A, CHR 0xC3, CHR 0x9C, CHR 0xC3, CHR 0xB2],
      [CHR 0xE2, CHR 0x80, CHR 0x9A, CHR 0xC3, CHR 0x9C, CHR 0xC3, CHR 0xAC],
      [CHR 0xE2, CHR 0x80, CHR 0x9A, CHR 0xC3, CHR 0x9C, CHR 0xC3, CHR 0xB4],
      [CHR 0xE2, CHR 0x80, CHR 0x9A, CHR 0xC3, CHR 0x9C, CHR 0xC3, CHR 0xAA],
      [CHR 0xE2, CHR 0x80, CHR 0x9A, CHR 0xC3, CHR 0x9C, CHR 0xC3, CHR 0xB1]]"

text \<open>
  The local \<open>index\<close> of line 97, in double precision (the sum is rounded, then the
  quotient), and the lookup of line 98.
\<close>

definition arrow_index :: "real \<Rightarrow> int" where
  "arrow_index course = py_int (fdiv (fadd course 22.5) 45) mod 8"

definition calculate_direction_arrow :: "real \<Rightarrow> py_error + string" where
  "calculate_direction_arrow course = py_index directions (arrow_index course)"

section \<open>is_heading_to_strategic_region\<close>

text \<open>
  Lines 110 to 119 in exact arithmetic: the bearing from the vessel to a region's center,
  in degrees.
\<close>

definition bearing_to :: "real \<Rightarrow> real \<Rightarrow> real \<Rightarrow> real \<Rightarrow> real" where
  "bearing_to lat lon center_lat center_lon =
     (let lat1 = radians lat; lon1 = radians lon;
          lat2 = radians center_lat; lon2 = radians center_lon;
          dlon = lon2 - lon1;
          bearing = atan2 (sin dlon * cos lat2)
                          (cos lat1 * sin lat2 - sin lat1 * cos lat2 * cos dlon);
          bearing = degrees bearing
      in py_fmod (bearing + 360) 360)"

text \<open>The \<open>for\<close> loop over the regions, with its early \<open>return\<close>, in exact arithmetic.\<close>

fun heading_loop :: "region list \<Rightarrow> real \<Rightarrow> real \<Rightarrow> real \<Rightarrow> string" where
  "heading_loop [] lat lon course = ''Other Operations''"
| "heading_loop (region # rest) lat lon course =
     (let center_lat = (north (bounds region) + south (bounds region)) / 2;
          center_lon = (east (bounds region) + west (bounds region)) / 2;
          bearing = bearing_to lat lon center_lat center_lon;
          diff = \<bar>course - bearing\<bar>
      in if min diff (360 - diff) \<le> 45 then name region
         else heading_loop rest lat lon course)"

definition is_heading_to_strategic_region ::
    "tracker \<Rightarrow> real \<Rightarrow> real \<Rightarrow> real \<Rightarrow> py_error + string" where
  "is_heading_to_strategic_region self lat lon course =
     Inr (heading_loop (map snd (strategic_regions self)) lat lon course)"

section \<open>is_heading_to_strategic_region over a given arithmetic\<close>

text \<open>
  The rounding operations of lines 104 to 126 and the functions of the \<open>math\<close> module,
  as a record. Comparison, \<open>abs\<close> and \<open>min\<close> are exact on doubles and are not part of it;
  the literals 2, 45 and 360 and the bounds of the regions are doubles.
\<close>

record arith =
  op_add :: "real \<Rightarrow> real \<Rightarrow> real"
  op_sub :: "real \<Rightarrow> real \<Rightarrow> real"
  op_mul :: "real \<Rightarrow> real \<Rightarrow> real"
  op_div :: "real \<Rightarrow> real \<Rightarrow> real"
  op_mod :: "real \<Rightarrow> real \<Rightarrow> real"
  op_sin :: "real \<Rightarrow> real"
  op_cos :: "real \<Rightarrow> real"
  op_atan2 :: "real \<Rightarrow> real \<Rightarrow> real"
  op_radians :: "real \<Rightarrow> real"
  op_degrees :: "real \<Rightarrow> real"


text \<open>Exact real arithmetic, and double precision with a given math library.\<close>

definition exact_arith :: arith where
  "exact_arith =
     \<lparr> op_add = (+), op_sub = (-), op_mul = (*), op_div = (/), op_mod = py_fmod,
       op_sin = sin, op_cos = cos, op_atan2 = atan2,
       op_radians = radians, op_degrees = degrees \<rparr>"


text \<open>Lines 110 to 119.\<close>

definition bearing_with :: "arith \<Rightarrow> real \<Rightarrow> real \<Rightarrow> real \<Rightarrow> real \<Rightarrow> real" where
  "bearing_with A lat lon center_lat center_lon =
     (let lat1 = op_radians A lat; lon1 = op_radians A lon;
          lat2 = op_radians A center_lat; lon2 = op_radians A center_lon;
          dlon = op_sub A lon2 lon1;
          bearing = op_atan2 A
            (op_mul A (op_sin A dlon) (op_cos A lat2))
            (op_sub A (op_mul A (op_cos A lat1) (op_sin A lat2))
                      (op_mul A (op_mul A (op_sin A lat1) (op_cos A lat2)) (op_cos A dlon)));
          bearing = op_degrees A bearing
      in op_mod A (op_add A bearing 360) 360)"

text \<open>Lines 104 to 126: the loop and the sentinel.\<close>

fun heading_loop_with :: "arith \<Rightarrow> region list \<Rightarrow> real \<Rightarrow> real \<Rightarrow> real \<Rightarrow> string" where
  "heading_loop_with A [] lat lon course = ''Other Operations''"
| "heading_loop_with A (region # rest) lat lon course =
     (let center_lat = op_div A (op_add A (north (bounds region)) (south (bounds region))) 2;
          center_lon = op_div A (op_add A (east (bounds region)) (west (bounds region))) 2;
          bearing = bearing_with A lat lon center_lat center_lon;
          diff = \<bar>op_sub A course bearing\<bar>
      in if min diff (op_sub A 360 diff) \<le> 45 then name region
         else heading_loop_with A rest lat lon course)"

definition is_heading_with ::
    "arith \<Rightarrow> tracker \<Rightarrow> real \<Rightarrow> real \<Rightarrow> real \<Rightarrow> py_error + string" where
  "is_heading_with A self lat lon course =
     Inr (heading_loop_with A (map snd (strategic_regions self)) lat lon course)"



section \<open>The classification as the specification words it\<close>

text \<open>
  These definitions follow the specification's sections 4.1 and 4.2, not the source. The
  bearing formula is in exact arithmetic. The classifier takes the arithmetic and the
  bearing function as parameters: a region's center is the midpoint of its bounding box,
  the circular difference is the smaller of \<open>diff\<close> and \<open>360 - diff\<close>, and the result is
  the name of the first region in list order that is within tolerance, or the sentinel.
\<close>

definition normalize360_spec :: "real \<Rightarrow> real" where
  "normalize360_spec d = d - 360 * of_int \<lfloor>d / 360\<rfloor>"

definition initialBearing_spec :: "real \<times> real \<Rightarrow> real \<times> real \<Rightarrow> real" where
  "initialBearing_spec p1 p2 =
     (let phi1 = radians (fst p1); lambda1 = radians (snd p1);
          phi2 = radians (fst p2); lambda2 = radians (snd p2);
          dlambda = lambda2 - lambda1;
          x = sin dlambda * cos phi2;
          y = cos phi1 * sin phi2 - sin phi1 * cos phi2 * cos dlambda
      in normalize360_spec (degrees (atan2 x y)))"




section \<open>The direction arrow\<close>

lemma length_directions: "length directions = 8"
  by (simp add: directions_def)

lemma arrow_index_range: "0 \<le> arrow_index course \<and> arrow_index course < 8"
  by (simp add: arrow_index_def)

lemma arrow_in_range:
  "calculate_direction_arrow course = Inr (directions ! nat (arrow_index course))"
  using arrow_index_range [of course]
  by (simp add: calculate_direction_arrow_def py_index_def length_directions)

text \<open>
  C10: for every course the index \<open>int((course + 22.5) / 45) % 8\<close> lies in \<open>[0, 8)\<close>, the
  lookup in the list of 8 symbols never raises, and the result is one of the 8 symbols.
\<close>

theorem arrow_total:
  "0 \<le> arrow_index course \<and> arrow_index course < int (length directions)
   \<and> length directions = 8
   \<and> (\<exists>s. calculate_direction_arrow course = Inr s \<and> s \<in> set directions)"
proof -
  have r: "0 \<le> arrow_index course" "arrow_index course < 8"
    using arrow_index_range [of course] by simp_all
  then have "nat (arrow_index course) < length directions"
    by (simp add: length_directions)
  then have "directions ! nat (arrow_index course) \<in> set directions"
    by (rule nth_mem)
  with r show ?thesis
    by (simp add: arrow_in_range length_directions)
qed

section \<open>Facts about the primitives\<close>

lemma py_fmod_nonneg: "0 < y \<Longrightarrow> 0 \<le> py_fmod x y"
proof -
  assume y: "0 < y"
  have "of_int \<lfloor>x / y\<rfloor> \<le> x / y" by (rule of_int_floor_le)
  then have "y * of_int \<lfloor>x / y\<rfloor> \<le> y * (x / y)"
    using y by (simp only: mult_le_cancel_left_pos)
  then show ?thesis using y by (simp add: py_fmod_def)
qed

lemma py_fmod_less: "0 < y \<Longrightarrow> py_fmod x y < y"
proof -
  assume y: "0 < y"
  have "x / y < of_int \<lfloor>x / y\<rfloor> + 1" by linarith
  then have "y * (x / y) < y * (of_int \<lfloor>x / y\<rfloor> + 1)"
    using y by (simp only: mult_less_cancel_left_pos)
  then show ?thesis using y by (simp add: py_fmod_def algebra_simps)
qed

section \<open>Rounding to the nearest double\<close>

lemma round_half_even_of_int: "round_half_even (of_int n) = n"
  by (simp add: round_half_even_def)

lemma round_half_even_near: "\<bar>of_int (round_half_even y) - y\<bar> \<le> 1 / 2"
  unfolding round_half_even_def by (auto simp: abs_le_iff; linarith)

lemma round_half_even_nonneg: "0 \<le> y \<Longrightarrow> 0 \<le> round_half_even y"
  unfolding round_half_even_def by (auto; linarith)

lemma fl64_nonneg: "0 \<le> x \<Longrightarrow> 0 \<le> fl64 x"
  by (simp add: fl64_def round_half_even_nonneg)

lemma fl64_error: "\<bar>fl64 x - x\<bar> \<le> 2 powr of_int (ulp_exp x) / 2"
proof (cases "x = 0")
  case True
  then show ?thesis by (simp add: fl64_def)
next
  case False
  define u :: real where "u = 2 powr of_int (ulp_exp x)"
  have u: "0 < u" by (simp add: u_def)
  have "fl64 x - x = u * (of_int (round_half_even (x / u)) - x / u)"
    using False u by (simp add: fl64_def u_def algebra_simps)
  then have "\<bar>fl64 x - x\<bar> = u * \<bar>of_int (round_half_even (x / u)) - x / u\<bar>"
    using u by (simp add: abs_mult)
  also have "\<dots> \<le> u * (1 / 2)"
    using u round_half_even_near [of "x / u"] by (intro mult_left_mono) simp_all
  finally show ?thesis by (simp add: u_def)
qed

lemma ulp_exp_le:
  assumes "x \<noteq> 0" "\<bar>x\<bar> < 2 powr of_int E"
  shows "ulp_exp x \<le> max (E - 53) (- 1074)"
proof -
  have "log 2 \<bar>x\<bar> < of_int E"
    using assms by (simp add: log_less_iff)
  then have "\<lfloor>log 2 \<bar>x\<bar>\<rfloor> < E" by (simp add: floor_less_iff)
  then show ?thesis by (simp add: ulp_exp_def)
qed

lemma ulp_exp_eq:
  assumes "2 powr of_int e \<le> \<bar>x\<bar>" "\<bar>x\<bar> < 2 powr of_int (e + 1)"
  shows "ulp_exp x = max (e - 52) (- 1074)"
proof -
  have "0 < \<bar>x\<bar>" using assms(1) by (smt (verit) powr_gt_zero)
  then have "\<lfloor>log 2 \<bar>x\<bar>\<rfloor> = e"
    using assms by (simp add: floor_log_eq_powr_iff)
  then show ?thesis by (simp add: ulp_exp_def)
qed

lemma fl64_exact:
  assumes "x = of_int m * 2 powr of_int j" "ulp_exp x \<le> j"
  shows "fl64 x = x"
proof (cases "x = 0")
  case True
  then show ?thesis by (simp add: fl64_def)
next
  case False
  define d where "d = nat (j - ulp_exp x)"
  define u :: real where "u = 2 powr of_int (ulp_exp x)"
  have u: "0 < u" by (simp add: u_def)
  have j: "j = ulp_exp x + int d" using assms(2) by (simp add: d_def)
  have "(2::real) powr of_int j = 2 powr (of_int (ulp_exp x) + real d)"
    by (subst j) simp
  then have p: "(2::real) powr of_int j = u * 2 ^ d"
    by (simp add: powr_add powr_realpow u_def)
  have xu: "x = u * of_int (m * 2 ^ d)"
    using assms(1) p by simp
  then have "x / u = of_int (m * 2 ^ d)"
    using u by simp
  then have "round_half_even (x / u) = m * 2 ^ d"
    by (simp only: round_half_even_of_int)
  then have "fl64 x = u * of_int (m * 2 ^ d)"
    using False by (simp add: fl64_def u_def)
  then show ?thesis using xu by simp
qed

lemma two_powr_minus_numeral: "(2::real) powr - numeral n = 1 / 2 ^ numeral n"
  by (simp add: powr_minus_divide)

lemma two_powr_minus_one: "(2::real) powr - 1 = 1 / 2"
  by (simp add: powr_minus_divide)

lemma fl64_exact_below:
  assumes "x = of_int m * 2 powr of_int j" "\<bar>x\<bar> < 2 powr of_int E" "E - 53 \<le> j" "- 1074 \<le> j"
  shows "fl64 x = x"
proof (cases "x = 0")
  case True
  then show ?thesis by (simp add: fl64_def)
next
  case False
  have "ulp_exp x \<le> max (E - 53) (- 1074)"
    using False assms(2) by (rule ulp_exp_le)
  then have "ulp_exp x \<le> j" using assms(3,4) by simp
  with assms(1) show ?thesis by (rule fl64_exact)
qed

lemma fl64_error_below:
  assumes "\<bar>x\<bar> < 2 powr of_int E" "- 1021 \<le> E"
  shows "\<bar>fl64 x - x\<bar> \<le> 2 powr of_int (E - 54)"
proof (cases "x = 0")
  case True
  then show ?thesis by (simp add: fl64_def)
next
  case False
  have "ulp_exp x \<le> max (E - 53) (- 1074)"
    using False assms(1) by (rule ulp_exp_le)
  then have "ulp_exp x \<le> E - 53" using assms(2) by simp
  then have "(2::real) powr of_int (ulp_exp x) \<le> 2 powr of_int (E - 53)"
    by simp
  then have "(2::real) powr of_int (ulp_exp x) / 2 \<le> 2 powr of_int (E - 53) / 2"
    by simp
  also have "(2::real) powr of_int (E - 53) / 2 = 2 powr of_int (E - 54)"
    by (simp add: powr_diff)
  finally show ?thesis using fl64_error [of x] by linarith
qed

section \<open>Sectors of the direction arrow\<close>

lemma arrow_index_nonneg_course:
  assumes "0 \<le> course"
  shows "arrow_index course = \<lfloor>fdiv (fadd course 22.5) 45\<rfloor> mod 8"
proof -
  have "0 \<le> fadd course 22.5" using assms by (simp add: fadd_def fl64_nonneg)
  then have "0 \<le> fdiv (fadd course 22.5) 45" by (simp add: fdiv_def fl64_nonneg)
  then show ?thesis by (simp add: arrow_index_def py_int_def)
qed

lemma fadd_whole:
  assumes "0 \<le> k" "k < 2 ^ 32"
  shows "fadd (of_int k) 22.5 = of_int k + 22.5"
proof -
  have k: "(of_int k :: real) < 2 ^ 32" "0 \<le> (of_int k :: real)"
    using assms by simp_all
  have "fl64 (of_int k + 22.5) = of_int k + 22.5"
  proof (rule fl64_exact_below [where m = "2 * k + 45" and j = "- 1" and E = 33])
    show "(of_int k :: real) + 22.5 = of_int (2 * k + 45) * 2 powr of_int (- 1)"
      by (simp add: two_powr_minus_one)
    show "\<bar>(of_int k :: real) + 22.5\<bar> < 2 powr of_int 33" using k by simp
  qed simp_all
  then show ?thesis by (simp add: fadd_def)
qed

lemma whole_quotient_gap:
  fixes k :: int and q :: real
  assumes "q = (of_int k + 22.5) / 45"
  shows "of_int \<lfloor>q\<rfloor> + 1 / 90 \<le> q \<and> q \<le> of_int \<lfloor>q\<rfloor> + 1 - 1 / 90"
proof -
  define a where "a = 2 * k + 45"
  have q: "q = (of_int a :: real) / of_int 90"
    by (simp add: a_def assms)
  have n: "\<lfloor>q\<rfloor> = a div 90"
    unfolding q by (rule floor_divide_of_int_eq)
  have "odd a" by (simp add: a_def)
  then have "a mod 90 \<noteq> 0" by presburger
  moreover have "0 \<le> a mod 90" "a mod 90 < 90" by simp_all
  ultimately have m: "1 \<le> a mod 90" "a mod 90 \<le> 89" by linarith+
  have "a = 90 * (a div 90) + a mod 90" by simp
  then have "(of_int a :: real) = of_int (90 * (a div 90) + a mod 90)"
    by (simp only:)
  then have "(of_int a :: real) = 90 * of_int (a div 90) + of_int (a mod 90)"
    by (simp only: of_int_add of_int_mult of_int_numeral)
  then have d: "q = of_int (a div 90) + of_int (a mod 90) / 90"
    unfolding q by simp
  have "(1::real) \<le> of_int (a mod 90)" "(of_int (a mod 90) :: real) \<le> 89"
    using m by linarith+
  then show ?thesis
    unfolding n using d by simp
qed

lemma arrow_index_whole:
  assumes "0 \<le> k" "k < 2 ^ 32"
  shows "arrow_index (of_int k) = \<lfloor>(of_int k + 22.5) / 45 :: real\<rfloor> mod 8"
proof -
  define q :: real where "q = (of_int k + 22.5) / 45"
  have k: "(of_int k :: real) < 2 ^ 32" "0 \<le> (of_int k :: real)"
    using assms by simp_all
  have q0: "0 \<le> q" using k by (simp add: q_def)
  have "\<bar>q\<bar> < 2 powr of_int 28" using k by (simp add: q_def)
  then have "\<bar>fl64 q - q\<bar> \<le> 2 powr of_int (28 - 54)"
    by (rule fl64_error_below) simp
  then have e: "\<bar>fl64 q - q\<bar> \<le> 1 / 67108864"
    by (simp add: two_powr_minus_numeral)
  have g: "of_int \<lfloor>q\<rfloor> + 1 / 90 \<le> q" "q \<le> of_int \<lfloor>q\<rfloor> + 1 - 1 / 90"
    using whole_quotient_gap [OF q_def] by simp_all
  have "of_int \<lfloor>q\<rfloor> \<le> fl64 q" "fl64 q < of_int \<lfloor>q\<rfloor> + 1"
    using e g by linarith+
  then have "\<lfloor>fl64 q\<rfloor> = \<lfloor>q\<rfloor>" by (intro floor_unique)
  moreover have "fdiv (fadd (of_int k) 22.5) 45 = fl64 q"
    by (simp only: fadd_whole [OF assms] fdiv_def q_def)
  ultimately show ?thesis
    using arrow_index_nonneg_course [of "of_int k"] k(2) by (simp only: q_def)
qed

lemma arrow_index_0: "arrow_index 0 = 0"
  using arrow_index_whole [of 0] by simp

lemma arrow_index_45: "arrow_index 45 = 1"
  using arrow_index_whole [of 45] by simp

lemma arrow_index_100: "arrow_index 100 = 2"
  using arrow_index_whole [of 100] by simp

lemma arrow_index_315: "arrow_index 315 = 7"
  using arrow_index_whole [of 315] by simp

lemma arrow_index_360: "arrow_index 360 = 0"
  using arrow_index_whole [of 360] by simp

lemma arrow_index_725: "arrow_index 725 = 0"
  using arrow_index_whole [of 725] by simp

lemma arrow_index_minus_45: "arrow_index (- 45) = 0"
proof -
  have "fl64 (- 45 + 22.5) = - 45 + 22.5"
    by (rule fl64_exact_below [where m = "- 45" and j = "- 1" and E = 5])
       (simp_all add: two_powr_minus_one)
  moreover have "- 45 + 22.5 = (- 22.5 :: real)" by simp
  ultimately have a: "fadd (- 45) 22.5 = - 22.5" by (simp only: fadd_def)
  have "fl64 (- 22.5 / 45) = - 22.5 / 45"
    by (rule fl64_exact_below [where m = "- 1" and j = "- 1" and E = 0])
       (simp_all add: two_powr_minus_one)
  moreover have "- 22.5 / 45 = (- (1 / 2) :: real)" by simp
  ultimately have b: "fdiv (- 22.5) 45 = - (1 / 2)" by (simp only: fdiv_def)
  show ?thesis
    unfolding arrow_index_def a b by (simp add: py_int_def ceiling_minus)
qed

lemma py_fmod_whole: "py_fmod (of_int k) 360 = of_int (k mod 360)"
proof -
  have "\<lfloor>(of_int k :: real) / of_int 360\<rfloor> = k div 360"
    by (rule floor_divide_of_int_eq)
  then have "py_fmod (of_int k) 360 = of_int k - 360 * of_int (k div 360)"
    by (simp add: py_fmod_def)
  also have "\<dots> = of_int (k - 360 * (k div 360))" by simp
  also have "k - 360 * (k div 360) = k mod 360"
    by (simp add: minus_mult_div_eq_mod)
  finally show ?thesis .
qed

lemma sector_mod_360:
  "\<lfloor>(of_int (k mod 360) + 22.5) / 45 :: real\<rfloor> mod 8 = \<lfloor>(of_int k + 22.5) / 45 :: real\<rfloor> mod 8"
proof -
  have "k = 360 * (k div 360) + k mod 360" by simp
  then have "(of_int k :: real) = of_int (360 * (k div 360) + k mod 360)" by (simp only:)
  then have "(of_int k :: real) = 360 * of_int (k div 360) + of_int (k mod 360)"
    by (simp only: of_int_add of_int_mult of_int_numeral)
  then have "(of_int k + 22.5) / 45 = (of_int (k mod 360) + 22.5) / 45 + (of_int (8 * (k div 360)) :: real)"
    by simp
  then have "\<lfloor>(of_int k + 22.5) / 45 :: real\<rfloor> = \<lfloor>(of_int (k mod 360) + 22.5) / 45 :: real\<rfloor> + 8 * (k div 360)"
    by (simp only: floor_add_int)
  then show ?thesis by (simp only: mod_mult_self2)
qed

lemma arrow_index_wraps_whole:
  assumes "0 \<le> k" "k < 2 ^ 32"
  shows "arrow_index (py_fmod (of_int k) 360) = arrow_index (of_int k)"
proof -
  have "0 \<le> k mod 360" "k mod 360 < 2 ^ 32"
    by simp_all
  then have "arrow_index (of_int (k mod 360)) = \<lfloor>(of_int (k mod 360) + 22.5) / 45 :: real\<rfloor> mod 8"
    by (rule arrow_index_whole)
  then show ?thesis
    by (simp only: py_fmod_whole sector_mod_360 arrow_index_whole [OF assms])
qed

lemma near_boundary_representable: "fl64 (22.5 - 1 / 2 ^ 48) = 22.5 - 1 / 2 ^ 48"
  by (rule fl64_exact_below [where m = "45 * 2 ^ 47 - 1" and j = "- 48" and E = 5])
     (simp_all add: two_powr_minus_numeral)

lemma near_boundary_sum: "fadd (22.5 - 1 / 2 ^ 48) 22.5 = 45"
proof -
  define x :: real where "x = 45 - 1 / 2 ^ 48"
  have x0: "x \<noteq> 0" by (simp add: x_def)
  have "ulp_exp x = max (5 - 52) (- 1074)"
    by (rule ulp_exp_eq) (simp_all add: x_def)
  then have u: "ulp_exp x = - 47" by simp
  have r: "x / 2 powr of_int (- 47) = 12666373951979519 / 2"
    by (simp add: x_def two_powr_minus_numeral)
  have h: "round_half_even (12666373951979519 / 2) = 6333186975989760"
    by (simp add: round_half_even_def)
  have "fl64 x = 2 powr of_int (ulp_exp x)
      * of_int (round_half_even (x / 2 powr of_int (ulp_exp x)))"
    using x0 by (simp only: fl64_def if_False)
  also have "\<dots> = 2 powr of_int (- 47) * of_int 6333186975989760"
    by (simp only: u r h)
  also have "\<dots> = 45" by (simp add: two_powr_minus_numeral)
  finally have f: "fl64 x = 45" .
  have "22.5 - 1 / 2 ^ 48 + 22.5 = x" by (simp add: x_def)
  then show ?thesis by (simp only: fadd_def f)
qed

lemma fl64_one: "fl64 1 = 1"
  by (rule fl64_exact_below [where m = 1 and j = 0 and E = 1]) simp_all

lemma arrow_index_near_boundary: "arrow_index (22.5 - 1 / 2 ^ 48) = 1"
proof -
  have "(45::real) / 45 = 1" by simp
  then have d: "fdiv 45 45 = 1" by (simp only: fdiv_def fl64_one)
  show ?thesis
    unfolding arrow_index_def near_boundary_sum d by (simp add: py_int_def)
qed

lemma exact_index_near_boundary: "\<lfloor>((22.5 - 1 / 2 ^ 48) + 22.5) / 45 :: real\<rfloor> mod 8 = 0"
  by simp

lemma near_wrap_representable: "fl64 (1012.5 - 1 / 2 ^ 43) = 1012.5 - 1 / 2 ^ 43"
  by (rule fl64_exact_below [where m = "2025 * 2 ^ 42 - 1" and j = "- 43" and E = 10])
     (simp_all add: two_powr_minus_numeral)

lemma near_wrap_mod: "py_fmod (1012.5 - 1 / 2 ^ 43) 360 = 292.5 - 1 / 2 ^ 43"
proof -
  have "\<lfloor>(1012.5 - 1 / 2 ^ 43) / 360 :: real\<rfloor> = 2" by simp
  then show ?thesis unfolding py_fmod_def by simp
qed

lemma near_wrap_sum: "fadd (1012.5 - 1 / 2 ^ 43) 22.5 = 1035"
proof -
  define x :: real where "x = 1035 - 1 / 2 ^ 43"
  have x0: "x \<noteq> 0" by (simp add: x_def)
  have "ulp_exp x = max (10 - 52) (- 1074)"
    by (rule ulp_exp_eq) (simp_all add: x_def)
  then have u: "ulp_exp x = - 42" by simp
  have r: "x / 2 powr of_int (- 42) = 9103956277985279 / 2"
    by (simp add: x_def two_powr_minus_numeral)
  have h: "round_half_even (9103956277985279 / 2) = 4551978138992640"
    by (simp add: round_half_even_def)
  have "fl64 x = 2 powr of_int (ulp_exp x)
      * of_int (round_half_even (x / 2 powr of_int (ulp_exp x)))"
    using x0 by (simp only: fl64_def if_False)
  also have "\<dots> = 2 powr of_int (- 42) * of_int 4551978138992640"
    by (simp only: u r h)
  also have "\<dots> = 1035" by (simp add: two_powr_minus_numeral)
  finally have f: "fl64 x = 1035" .
  have "1012.5 - 1 / 2 ^ 43 + 22.5 = x" by (simp add: x_def)
  then show ?thesis by (simp only: fadd_def f)
qed

lemma fl64_23: "fl64 23 = 23"
  by (rule fl64_exact_below [where m = 23 and j = 0 and E = 5]) simp_all

lemma arrow_index_near_wrap: "arrow_index (1012.5 - 1 / 2 ^ 43) = 7"
proof -
  have "(1035::real) / 45 = 23" by simp
  then have d: "fdiv 1035 45 = 23" by (simp only: fdiv_def fl64_23)
  show ?thesis
    unfolding arrow_index_def near_wrap_sum d by (simp add: py_int_def)
qed

lemma wrapped_sum: "fadd (292.5 - 1 / 2 ^ 43) 22.5 = 315 - 1 / 2 ^ 43"
proof -
  have "fl64 (315 - 1 / 2 ^ 43) = 315 - 1 / 2 ^ 43"
    by (rule fl64_exact_below [where m = "315 * 2 ^ 43 - 1" and j = "- 43" and E = 9])
       (simp_all add: two_powr_minus_numeral)
  moreover have "292.5 - 1 / 2 ^ 43 + 22.5 = (315 - 1 / 2 ^ 43 :: real)" by simp
  ultimately show ?thesis by (simp only: fadd_def)
qed

lemma wrapped_quotient: "fdiv (315 - 1 / 2 ^ 43) 45 = 7 - 3 / 2 ^ 50"
proof -
  define x :: real where "x = (315 - 1 / 2 ^ 43) / 45"
  have x0: "x \<noteq> 0" by (simp add: x_def)
  have "ulp_exp x = max (2 - 52) (- 1074)"
    by (rule ulp_exp_eq) (simp_all add: x_def)
  then have u: "ulp_exp x = - 50" by simp
  have r: "x / 2 powr of_int (- 50) = 354658470655426432 / 45"
    by (simp add: x_def two_powr_minus_numeral)
  have h: "round_half_even (354658470655426432 / 45) = 7881299347898365"
    by (simp add: round_half_even_def)
  have "fl64 x = 2 powr of_int (ulp_exp x)
      * of_int (round_half_even (x / 2 powr of_int (ulp_exp x)))"
    using x0 by (simp only: fl64_def if_False)
  also have "\<dots> = 2 powr of_int (- 50) * of_int 7881299347898365"
    by (simp only: u r h)
  also have "\<dots> = 7 - 3 / 2 ^ 50" by (simp add: two_powr_minus_numeral)
  finally show ?thesis by (simp only: fdiv_def x_def)
qed

lemma arrow_index_wrapped: "arrow_index (292.5 - 1 / 2 ^ 43) = 6"
  unfolding arrow_index_def wrapped_sum wrapped_quotient by (simp add: py_int_def)

lemma py_fmod_725: "py_fmod 725 360 = 5"
  by (simp add: py_fmod_def)

lemma directions_0_1: "directions ! 1 \<noteq> directions ! 0"
  by (simp add: directions_def)

lemma directions_0_7: "directions ! 0 \<noteq> directions ! 7"
  by (simp add: directions_def)

lemma directions_6_7: "directions ! 7 \<noteq> directions ! 6"
  by (simp add: directions_def)

text \<open>
  C8, as the code has it: for every course in \<open>[0, 360)\<close> the arrow is the symbol at index
  \<open>floor q mod 8\<close> of the list of 8 symbols, where \<open>q\<close> is \<open>(course + 22.5) / 45\<close> as line
  97 computes it, the sum rounded and then the quotient rounded. For a whole number of
  degrees this is \<open>floor((course + 22.5) / 45) mod 8\<close> exactly. Course 0 gives the first
  symbol (N) and course 45 the second (NE).
\<close>

theorem arrow_sector:
  "(0 \<le> course \<and> course < 360 \<longrightarrow>
      calculate_direction_arrow course
        = Inr (directions ! nat (\<lfloor>fdiv (fadd course 22.5) 45\<rfloor> mod 8)))
   \<and> (0 \<le> k \<and> k < 360 \<longrightarrow>
      calculate_direction_arrow (of_int k)
        = Inr (directions ! nat (\<lfloor>(of_int k + 22.5) / 45 :: real\<rfloor> mod 8)))
   \<and> calculate_direction_arrow 0 = Inr (directions ! 0)
   \<and> calculate_direction_arrow 45 = Inr (directions ! 1)"
proof (intro conjI impI)
  assume "0 \<le> course \<and> course < 360"
  then have "0 \<le> course" by simp
  then show "calculate_direction_arrow course
      = Inr (directions ! nat (\<lfloor>fdiv (fadd course 22.5) 45\<rfloor> mod 8))"
    by (simp only: arrow_in_range arrow_index_nonneg_course)
next
  assume "0 \<le> k \<and> k < 360"
  then have "0 \<le> k" "k < 2 ^ 32" by simp_all
  then show "calculate_direction_arrow (of_int k)
      = Inr (directions ! nat (\<lfloor>(of_int k + 22.5) / 45 :: real\<rfloor> mod 8))"
    by (simp only: arrow_in_range arrow_index_whole)
next
  show "calculate_direction_arrow 0 = Inr (directions ! 0)"
    by (simp add: arrow_in_range arrow_index_0)
next
  show "calculate_direction_arrow 45 = Inr (directions ! 1)"
    by (simp add: arrow_in_range arrow_index_45)
qed

theorem arrow_sector_witness:
  "(0::real) \<le> 100 \<and> (100::real) < 360 \<and> (0::int) \<le> 100 \<and> (100::int) < 360
   \<and> calculate_direction_arrow 100
       = Inr (directions ! nat (\<lfloor>fdiv (fadd 100 22.5) 45\<rfloor> mod 8))
   \<and> calculate_direction_arrow 100 = Inr (directions ! 2)"
proof -
  note s = arrow_sector [of 100 100]
  have a: "calculate_direction_arrow 100
       = Inr (directions ! nat (\<lfloor>fdiv (fadd 100 22.5) 45\<rfloor> mod 8))"
    by (rule s [THEN conjunct1, THEN mp]) simp
  have "calculate_direction_arrow (of_int 100)
       = Inr (directions ! nat (\<lfloor>(of_int 100 + 22.5) / 45 :: real\<rfloor> mod 8))"
    by (rule s [THEN conjunct2, THEN conjunct1, THEN mp]) simp
  then have b: "calculate_direction_arrow 100 = Inr (directions ! 2)"
    by simp
  show ?thesis
    by (intro conjI a b) simp_all
qed

text \<open>
  C8 as stated, with the quotient in exact arithmetic, fails just below a sector
  boundary. The double next below 22.5 is a course in \<open>[0, 360)\<close>; adding 22.5 rounds to
  45.0, so the code returns the second symbol (NE), while \<open>floor((course + 22.5) / 45)\<close>
  is 0.
\<close>

theorem arrow_sector_near_boundary:
  "(0::real) \<le> 22.5 - 1 / 2 ^ 48 \<and> (22.5 - 1 / 2 ^ 48 :: real) < 360
   \<and> fl64 (22.5 - 1 / 2 ^ 48) = 22.5 - 1 / 2 ^ 48
   \<and> calculate_direction_arrow (22.5 - 1 / 2 ^ 48) = Inr (directions ! 1)
   \<and> calculate_direction_arrow (22.5 - 1 / 2 ^ 48)
       \<noteq> Inr (directions ! nat (\<lfloor>((22.5 - 1 / 2 ^ 48) + 22.5) / 45 :: real\<rfloor> mod 8))"
proof -
  have a: "calculate_direction_arrow (22.5 - 1 / 2 ^ 48) = Inr (directions ! 1)"
    by (simp only: arrow_in_range arrow_index_near_boundary) simp
  have "\<lfloor>((22.5 - 1 / 2 ^ 48) + 22.5) / 45 :: real\<rfloor> mod 8 = 0"
    by (rule exact_index_near_boundary)
  then have "Inr (directions ! nat (\<lfloor>((22.5 - 1 / 2 ^ 48) + 22.5) / 45 :: real\<rfloor> mod 8))
      = (Inr (directions ! 0) :: py_error + string)"
    by (simp only: nat_0)
  with a directions_0_1 have
    "calculate_direction_arrow (22.5 - 1 / 2 ^ 48)
       \<noteq> Inr (directions ! nat (\<lfloor>((22.5 - 1 / 2 ^ 48) + 22.5) / 45 :: real\<rfloor> mod 8))"
    by (simp only: sum.inject) simp
  moreover have "(0::real) \<le> 22.5 - 1 / 2 ^ 48" "(22.5 - 1 / 2 ^ 48 :: real) < 360"
    by simp_all
  ultimately show ?thesis
    using a near_boundary_representable by blast
qed

text \<open>
  C7, as the code has it: no course is rejected, and for every whole number of degrees
  from 0 up to \<open>2 ^ 32\<close> the arrow of the course is the arrow of the course modulo 360;
  the arrow of 360 is the arrow of 0.
\<close>

theorem arrow_wraps_whole_degrees:
  "(\<exists>s. calculate_direction_arrow course = Inr s)
   \<and> (0 \<le> k \<and> k < 2 ^ 32 \<longrightarrow>
      calculate_direction_arrow (of_int k)
        = calculate_direction_arrow (py_fmod (of_int k) 360))
   \<and> calculate_direction_arrow 360 = calculate_direction_arrow 0"
proof (intro conjI impI)
  show "\<exists>s. calculate_direction_arrow course = Inr s"
    by (simp add: arrow_in_range)
next
  assume "0 \<le> k \<and> k < 2 ^ 32"
  then have "0 \<le> k" "k < 2 ^ 32" by simp_all
  then show "calculate_direction_arrow (of_int k)
      = calculate_direction_arrow (py_fmod (of_int k) 360)"
    by (simp only: arrow_in_range arrow_index_wraps_whole)
next
  show "calculate_direction_arrow 360 = calculate_direction_arrow 0"
    by (simp add: arrow_in_range arrow_index_0 arrow_index_360)
qed

theorem arrow_wraps_whole_degrees_witness:
  "(0::int) \<le> 725 \<and> (725::int) < 2 ^ 32
   \<and> py_fmod 725 360 = 5
   \<and> calculate_direction_arrow 725 = calculate_direction_arrow 5
   \<and> calculate_direction_arrow 725 = Inr (directions ! 0)"
  using arrow_wraps_whole_degrees [of 0 725]
  by (simp add: py_fmod_725 arrow_in_range arrow_index_725)

text \<open>
  C7 as stated fails in two ways. \<open>int\<close> truncates toward zero: course -45 has index 0
  (N), while 315, which is -45 modulo 360, has index 7 (NW). And rounding moves a course
  across a sector boundary: the double next below 1012.5 has index 7, since adding 22.5
  rounds to 1035.0, while the same course modulo 360, the double 292.5 minus
  \<open>2 ^ - 43\<close>, has index 6.
\<close>

theorem arrow_wrap_fails:
  "calculate_direction_arrow (- 45) \<noteq> calculate_direction_arrow 315
   \<and> fl64 (1012.5 - 1 / 2 ^ 43) = 1012.5 - 1 / 2 ^ 43
   \<and> calculate_direction_arrow (1012.5 - 1 / 2 ^ 43)
       \<noteq> calculate_direction_arrow (py_fmod (1012.5 - 1 / 2 ^ 43) 360)"
proof -
  have "calculate_direction_arrow (- 45) \<noteq> calculate_direction_arrow 315"
    using directions_0_7
    by (simp add: arrow_in_range arrow_index_minus_45 arrow_index_315)
  moreover have "calculate_direction_arrow (1012.5 - 1 / 2 ^ 43)
       \<noteq> calculate_direction_arrow (py_fmod (1012.5 - 1 / 2 ^ 43) 360)"
    using directions_6_7
    by (simp only: near_wrap_mod arrow_in_range arrow_index_near_wrap arrow_index_wrapped) simp
  ultimately show ?thesis
    using near_wrap_representable by blast
qed

section \<open>The bearing\<close>

lemma bearing_to_range:
  "0 \<le> bearing_to lat lon clat clon \<and> bearing_to lat lon clat clon < 360"
  by (simp add: bearing_to_def Let_def py_fmod_nonneg py_fmod_less)

lemma normalize_shift: "py_fmod (d + 360) 360 = normalize360_spec d"
proof -
  have "(d + 360) / 360 = d / 360 + 1" by (simp add: field_simps)
  then have "\<lfloor>(d + 360) / 360\<rfloor> = \<lfloor>d / 360 + 1\<rfloor>" by (simp only:)
  then have "\<lfloor>(d + 360) / 360\<rfloor> = \<lfloor>d / 360\<rfloor> + 1" by (simp del: add_divide_distrib)
  then show ?thesis by (simp add: py_fmod_def normalize360_spec_def algebra_simps)
qed

lemma bearing_to_spec:
  "bearing_to lat lon clat clon = initialBearing_spec (lat, lon) (clat, clon)"
  by (simp add: bearing_to_def initialBearing_spec_def Let_def normalize_shift)

text \<open>
  C5: the bearing computed in lines 110 to 119 is the specification's formula (atan2 of
  \<open>sin dlon * cos lat2\<close> and \<open>cos lat1 * sin lat2 - sin lat1 * cos lat2 * cos dlon\<close>, in
  degrees, normalised), and it lies in \<open>[0, 360)\<close> for every pair of points.
\<close>

theorem bearing_in_0_360:
  "bearing_to lat lon clat clon = initialBearing_spec (lat, lon) (clat, clon)
   \<and> 0 \<le> bearing_to lat lon clat clon \<and> bearing_to lat lon clat clon < 360"
  using bearing_to_range [of lat lon clat clon] bearing_to_spec [of lat lon clat clon]
  by simp

text \<open>
  C6: the bearing from a point to itself is 0: both arguments of atan2 are 0 there, and
  \<open>math.atan2(0, 0)\<close> is 0.
\<close>

theorem bearing_same_point: "bearing_to lat lon lat lon = 0"
  by (simp add: bearing_to_def Let_def atan2_def degrees_def py_fmod_def)

section \<open>The classification loop\<close>

lemma heading_loop_name:
  "heading_loop rs lat lon c = ''Other Operations'' \<or> heading_loop rs lat lon c \<in> name ` set rs"
  by (induction rs) (auto simp: Let_def)

lemma heading_loop_far:
  assumes "675 \<le> c"
  shows "heading_loop (r # rs) lat lon c = name r"
proof -
  define b where "b = bearing_to lat lon ((north (bounds r) + south (bounds r)) / 2)
      ((east (bounds r) + west (bounds r)) / 2)"
  have "0 \<le> b" "b < 360" using bearing_to_range by (simp_all add: b_def)
  with assms have "min \<bar>c - b\<bar> (360 - \<bar>c - b\<bar>) \<le> 45" by (simp add: min_def)
  then show ?thesis by (simp add: Let_def b_def)
qed


lemma bearing_with_exact: "bearing_with exact_arith = bearing_to"
  by (intro ext) (simp add: bearing_with_def bearing_to_def exact_arith_def Let_def)

lemma heading_loop_with_exact: "heading_loop_with exact_arith rs lat lon c = heading_loop rs lat lon c"
  by (induction rs) (simp_all add: bearing_with_exact Let_def, simp_all add: exact_arith_def)

lemma is_heading_with_exact:
  "is_heading_with exact_arith self lat lon c = is_heading_to_strategic_region self lat lon c"
  by (simp add: is_heading_with_def is_heading_to_strategic_region_def heading_loop_with_exact)


text \<open>
  C2, as the code has it: the function validates nothing. For every latitude, longitude
  and course, inside the valid ranges or not, it returns a classification, the name of a
  configured region or \<open>Other Operations\<close>, and never an error.
\<close>

theorem heading_never_fails:
  "\<exists>s. is_heading_to_strategic_region self lat lon course = Inr s
       \<and> (s = ''Other Operations'' \<or> s \<in> set (map (name \<circ> snd) (strategic_regions self)))"
  using heading_loop_name [of "map snd (strategic_regions self)" lat lon course]
  by (auto simp: is_heading_to_strategic_region_def)

text \<open>
  C2 as stated fails: course 1000 is outside \<open>[0, 360)\<close>, and the result is the
  classification \<open>Middle East\<close>. There \<open>360 - diff\<close> is negative, so the first region
  always matches.
\<close>

theorem heading_course_1000:
  "is_heading_to_strategic_region (VisualCarrierTracker None) 20.5 40.2 1000
     = Inr ''Middle East''"
  by (simp add: is_heading_to_strategic_region_def VisualCarrierTracker_def heading_loop_far
      del: heading_loop.simps)





section \<open>Bounds on sine, cosine and pi\<close>

lemma sin_lower_cubic:
  fixes x :: real
  assumes "0 \<le> x"
  shows "x - x ^ 3 / 6 \<le> sin x"
proof (cases "x = 0")
  case True
  then show ?thesis by simp
next
  case False
  with assms have "0 < x" by simp
  from Maclaurin_sin_expansion3 [of 3 x, OF _ this]
  obtain t where t: "sin x = (\<Sum>m<3. sin_coeff m * x ^ m) + sin (t + 1 / 2 * real 3 * pi) / fact 3 * x ^ 3"
    by auto
  have s: "(\<Sum>m<3. sin_coeff m * x ^ m) = x"
    by (simp add: eval_nat_numeral sin_coeff_def)
  have f: "fact 3 = (6::real)" by (simp add: eval_nat_numeral)
  have "- 1 \<le> sin (t + 1 / 2 * real 3 * pi)" by (rule sin_ge_minus_one)
  moreover have "0 \<le> x ^ 3 / 6" using assms by simp
  ultimately have "- 1 * (x ^ 3 / 6) \<le> sin (t + 1 / 2 * real 3 * pi) * (x ^ 3 / 6)"
    by (rule mult_right_mono)
  then show ?thesis by (simp add: t s f)
qed

lemma cos_lower_quadratic: "1 - x\<^sup>2 / 2 \<le> cos (x::real)"
proof -
  from Maclaurin_cos_expansion [of x 2]
  obtain t where t: "cos x = (\<Sum>m<2. cos_coeff m * x ^ m) + cos (t + 1 / 2 * real 2 * pi) / fact 2 * x ^ 2"
    by auto
  have s: "(\<Sum>m<2. cos_coeff m * x ^ m) = 1"
    by (simp add: eval_nat_numeral cos_coeff_def)
  have f: "fact 2 = (2::real)" by (simp add: eval_nat_numeral)
  have "- 1 \<le> cos (t + 1 / 2 * real 2 * pi)" by (rule cos_ge_minus_one)
  moreover have "0 \<le> x\<^sup>2 / 2" by simp
  ultimately have "- 1 * (x\<^sup>2 / 2) \<le> cos (t + 1 / 2 * real 2 * pi) * (x\<^sup>2 / 2)"
    by (rule mult_right_mono)
  then show ?thesis by (simp add: t s f)
qed

lemma cos_upper_quartic: "cos (x::real) \<le> 1 - x\<^sup>2 / 2 + x ^ 4 / 24"
proof -
  from Maclaurin_cos_expansion [of x 4]
  obtain t where t: "cos x = (\<Sum>m<4. cos_coeff m * x ^ m) + cos (t + 1 / 2 * real 4 * pi) / fact 4 * x ^ 4"
    by auto
  have n4: "(4::nat) = Suc (Suc (Suc (Suc 0)))" by simp
  have s: "(\<Sum>m<4. cos_coeff m * x ^ m) = 1 - x\<^sup>2 / 2"
    unfolding n4 by (simp add: cos_coeff_def power2_eq_square)
  have f: "fact 4 = (24::real)" by (simp add: eval_nat_numeral)
  have "cos (t + 1 / 2 * real 4 * pi) \<le> 1" by (rule cos_le_one)
  moreover have "0 \<le> x ^ 4 / 24" by simp
  ultimately have "cos (t + 1 / 2 * real 4 * pi) * (x ^ 4 / 24) \<le> 1 * (x ^ 4 / 24)"
    by (rule mult_right_mono)
  then show ?thesis by (simp add: t s f)
qed

lemma pi_ge_3: "3 \<le> pi"
proof -
  have "sin (pi / 6) \<le> pi / 6" by (rule sin_x_le_x) simp
  then show ?thesis by (simp add: sin_30)
qed

lemma pi_less_3_2: "pi < 16 / 5"
proof (rule ccontr)
  assume "\<not> pi < 16 / 5"
  then have p: "8 / 15 \<le> pi / 6" by simp
  have "sin (8 / 15) \<le> sin (pi / 6)"
    using p pi_ge_3 by (subst sin_mono_le_eq) simp_all
  moreover have "(8 / 15) - (8 / 15) ^ 3 / 6 \<le> sin (8 / 15 :: real)"
    by (rule sin_lower_cubic) simp
  ultimately show False by (simp add: sin_30 power3_eq_cube)
qed

section \<open>Bearings in the first three octants\<close>

lemma py_fmod_id:
  assumes "0 \<le> d" "d < 360"
  shows "py_fmod (d + 360) 360 = d"
proof -
  have "\<lfloor>(d + 360) / 360\<rfloor> = 1"
    using assms by (intro floor_unique) simp_all
  then show ?thesis by (simp add: py_fmod_def)
qed

lemma atan2_below_three_quarters:
  assumes "0 < s" "0 < s + c"
  shows "0 < atan2 s c \<and> atan2 s c < 3 * pi / 4"
proof -
  consider "0 < c" | "c = 0" | "c < 0" by linarith
  then show ?thesis
  proof cases
    case 1
    then have "0 < s / c" using assms by simp
    then have "0 < arctan (s / c)" by simp
    moreover have "arctan (s / c) < 3 * pi / 4"
      using arctan_ubound [of "s / c"] pi_gt_zero by linarith
    ultimately show ?thesis using 1 by (simp add: atan2_def)
  next
    case 2
    then show ?thesis using assms by (simp add: atan2_def)
  next
    case 3
    then have "s / c < - 1" using assms by (simp add: divide_less_eq)
    then have "arctan (s / c) < arctan (- 1)" by (simp only: arctan_less_iff)
    then have u: "arctan (s / c) < - (pi / 4)" by (simp add: arctan_minus arctan_one)
    have l: "- (pi / 2) < arctan (s / c)" by (rule arctan_lbound)
    show ?thesis using 3 assms u l by (simp add: atan2_def)
  qed
qed

lemma atan2_below_quarter:
  assumes "0 < s" "s \<le> c"
  shows "0 < atan2 s c \<and> atan2 s c \<le> pi / 4"
proof -
  have c: "0 < c" using assms by simp
  then have "0 < s / c" using assms by simp
  then have l: "0 < arctan (s / c)" by simp
  have "s / c \<le> 1" using assms c by simp
  then have "arctan (s / c) \<le> arctan 1" by (simp only: arctan_le_iff)
  then show ?thesis using l c by (simp add: atan2_def arctan_one)
qed

lemma degrees_less: "t < q * pi / 180 \<Longrightarrow> degrees t < q"
  by (simp add: degrees_def field_simps)

lemma degrees_le: "t \<le> q * pi / 180 \<Longrightarrow> degrees t \<le> q"
  by (simp add: degrees_def field_simps)

lemma degrees_pos: "0 < t \<Longrightarrow> 0 < degrees t"
  by (simp add: degrees_def)

lemma bearing_below_135:
  assumes "0 < sin (radians clon - radians lon) * cos (radians clat)"
    and "0 < sin (radians clon - radians lon) * cos (radians clat)
           + (cos (radians lat) * sin (radians clat)
              - sin (radians lat) * cos (radians clat) * cos (radians clon - radians lon))"
  shows "0 < bearing_to lat lon clat clon \<and> bearing_to lat lon clat clon < 135"
proof -
  define t where "t = atan2 (sin (radians clon - radians lon) * cos (radians clat))
      (cos (radians lat) * sin (radians clat)
        - sin (radians lat) * cos (radians clat) * cos (radians clon - radians lon))"
  have t: "0 < t" "t < 3 * pi / 4"
    using atan2_below_three_quarters [OF assms] by (simp_all add: t_def)
  have d: "0 < degrees t" "degrees t < 135"
    using t by (simp_all add: degrees_pos degrees_less)
  then have "py_fmod (degrees t + 360) 360 = degrees t"
    by (intro py_fmod_id) simp_all
  then show ?thesis using d by (simp add: bearing_to_def Let_def t_def)
qed

lemma bearing_below_45:
  assumes "0 < sin (radians clon - radians lon) * cos (radians clat)"
    and "sin (radians clon - radians lon) * cos (radians clat)
           \<le> cos (radians lat) * sin (radians clat)
              - sin (radians lat) * cos (radians clat) * cos (radians clon - radians lon)"
  shows "0 < bearing_to lat lon clat clon \<and> bearing_to lat lon clat clon \<le> 45"
proof -
  define t where "t = atan2 (sin (radians clon - radians lon) * cos (radians clat))
      (cos (radians lat) * sin (radians clat)
        - sin (radians lat) * cos (radians clat) * cos (radians clon - radians lon))"
  have t: "0 < t" "t \<le> pi / 4"
    using atan2_below_quarter [OF assms] by (simp_all add: t_def)
  have d: "0 < degrees t" "degrees t \<le> 45"
    using t by (simp_all add: degrees_pos degrees_le)
  then have "py_fmod (degrees t + 360) 360 = degrees t"
    by (intro py_fmod_id) simp_all
  then show ?thesis using d by (simp add: bearing_to_def Let_def t_def)
qed

lemma cross_ge_sin_diff:
  assumes "0 \<le> sin p1 * cos p2"
  shows "sin (p2 - p1) \<le> cos p1 * sin p2 - sin p1 * cos p2 * cos (d::real)"
proof -
  have "sin p1 * cos p2 * cos d \<le> sin p1 * cos p2 * 1"
    using assms by (intro mult_left_mono) simp_all
  then show ?thesis by (simp add: sin_diff algebra_simps)
qed

lemma radians_diff: "radians x - radians y = radians (x - y)"
  by (simp add: radians_def algebra_simps diff_divide_distrib)

lemma radians_less: "x < y \<Longrightarrow> radians x < radians y"
  by (simp add: radians_def)

lemma radians_le: "x \<le> y \<Longrightarrow> radians x \<le> radians y"
  by (simp add: radians_def)

lemma radians_0: "radians 0 = 0"
  by (simp add: radians_def)

lemma radians_90: "radians 90 = pi / 2"
  by (simp add: radians_def)

lemma radians_minus_90: "radians (- 90) = - (pi / 2)"
  by (simp add: radians_def)

lemma radians_180: "radians 180 = pi"
  by (simp add: radians_def)

text \<open>A target to the north-east of a vessel in the northern hemisphere.\<close>

lemma north_east_target:
  assumes "0 \<le> lat" "lat < clat" "clat < 90" "lon < clon" "clon - lon < 180"
  shows "0 < sin (radians clon - radians lon) * cos (radians clat)"
    and "sin (radians (clat - lat)) \<le> cos (radians lat) * sin (radians clat)
              - sin (radians lat) * cos (radians clat) * cos (radians clon - radians lon)"
    and "0 < sin (radians (clat - lat))"
proof -
  have p1: "0 \<le> radians lat" "radians lat \<le> pi"
    using assms radians_le [of 0 lat] radians_le [of lat 180]
    by (simp_all add: radians_0 radians_180)
  have p2: "- (pi / 2) < radians clat" "radians clat < pi / 2"
    using assms radians_less [of "- 90" clat] radians_less [of clat 90]
    by (simp_all add: radians_minus_90 radians_90)
  have d: "0 < radians clon - radians lon" "radians clon - radians lon < pi"
    using assms radians_less [of 0 "clon - lon"] radians_less [of "clon - lon" 180]
    by (simp_all add: radians_diff radians_0 radians_180)
  have c2: "0 < cos (radians clat)" using p2 by (rule cos_gt_zero_pi)
  have s1: "0 \<le> sin (radians lat)" using p1 by (rule sin_ge_zero)
  have sd: "0 < sin (radians clon - radians lon)" using d by (rule sin_gt_zero)
  show "0 < sin (radians clon - radians lon) * cos (radians clat)"
    using sd c2 by simp
  have "0 \<le> sin (radians lat) * cos (radians clat)" using s1 c2 by simp
  from cross_ge_sin_diff [OF this, of "radians clon - radians lon"]
  show "sin (radians (clat - lat)) \<le> cos (radians lat) * sin (radians clat)
              - sin (radians lat) * cos (radians clat) * cos (radians clon - radians lon)"
    by (simp add: radians_diff)
  have "0 < radians (clat - lat)" "radians (clat - lat) < pi"
    using assms radians_less [of 0 "clat - lat"] radians_less [of "clat - lat" 180]
    by (simp_all add: radians_0 radians_180)
  then show "0 < sin (radians (clat - lat))" by (rule sin_gt_zero)
qed

lemma bearing_middle_east:
  "0 < bearing_to 20.5 40.2 26 45 \<and> bearing_to 20.5 40.2 26 45 \<le> 45"
proof (rule bearing_below_45)
  note ne = north_east_target [of "20.5" 26 "40.2" 45]
  show pos: "0 < sin (radians 45 - radians 40.2) * cos (radians 26)"
    by (rule ne(1)) simp_all
  have y: "sin (radians (26 - 20.5)) \<le> cos (radians 20.5) * sin (radians 26)
              - sin (radians 20.5) * cos (radians 26) * cos (radians 45 - radians 40.2)"
    by (rule ne(2)) simp_all
  have r: "- (pi / 2) \<le> radians (45 - 40.2)" "radians (45 - 40.2) \<le> pi / 2"
       "- (pi / 2) \<le> radians (26 - 20.5)" "radians (26 - 20.5) \<le> pi / 2"
       "radians (45 - 40.2) \<le> radians (26 - 20.5)"
    using radians_le [of "- 90" "45 - 40.2"] radians_le [of "45 - 40.2" 90]
      radians_le [of "- 90" "26 - 20.5"] radians_le [of "26 - 20.5" 90]
      radians_le [of "45 - 40.2" "26 - 20.5"]
    by (simp_all add: radians_minus_90 radians_90)
  have m: "sin (radians (45 - 40.2)) \<le> sin (radians (26 - 20.5))"
    using r by (simp only: sin_mono_le_eq)
  have "0 \<le> radians (45 - 40.2)" "radians (45 - 40.2) \<le> pi"
    using radians_le [of 0 "45 - 40.2"] radians_le [of "45 - 40.2" 180]
    by (simp_all add: radians_0 radians_180)
  then have "0 \<le> sin (radians (45 - 40.2))" by (rule sin_ge_zero)
  then have "sin (radians (45 - 40.2)) * cos (radians 26) \<le> sin (radians (45 - 40.2)) * 1"
    by (intro mult_left_mono) simp_all
  with m y show "sin (radians 45 - radians 40.2) * cos (radians 26)
      \<le> cos (radians 20.5) * sin (radians 26)
              - sin (radians 20.5) * cos (radians 26) * cos (radians 45 - radians 40.2)"
    by (simp add: radians_diff)
qed

lemma bearing_east_asia:
  "0 < bearing_to 20.5 40.2 25 125 \<and> bearing_to 20.5 40.2 25 125 < 135"
proof (rule bearing_below_135)
  note ne = north_east_target [of "20.5" 25 "40.2" 125]
  show pos: "0 < sin (radians 125 - radians 40.2) * cos (radians 25)"
    by (rule ne(1)) simp_all
  have y: "sin (radians (25 - 20.5)) \<le> cos (radians 20.5) * sin (radians 25)
              - sin (radians 20.5) * cos (radians 25) * cos (radians 125 - radians 40.2)"
    by (rule ne(2)) simp_all
  have "0 < sin (radians (25 - 20.5))"
    by (rule ne(3)) simp_all
  with pos y show "0 < sin (radians 125 - radians 40.2) * cos (radians 25)
           + (cos (radians 20.5) * sin (radians 25)
              - sin (radians 20.5) * cos (radians 25) * cos (radians 125 - radians 40.2))"
    by linarith
qed

section \<open>The vessel at latitude 20.5, longitude 40.2\<close>

lemma bearing_indian_ocean:
  "0 < bearing_to 20.5 40.2 (- 7.5) 70 \<and> bearing_to 20.5 40.2 (- 7.5) 70 < 135"
proof (rule bearing_below_135)
  define a where "a = radians 70 - radians 40.2"
  define b where "b = radians 7.5"
  define c where "c = radians 20.5"
  have mb: "radians (- x) = - radians x" for x by (simp add: radians_def)
  have a_eq: "a = 149 * pi / 900" by (simp add: a_def radians_def)
  have b_eq: "b = pi / 24" by (simp add: b_def radians_def)
  have c_eq: "c = 41 * pi / 360" by (simp add: c_def radians_def)
  have a_lo: "149 / 300 \<le> a" using pi_ge_3 by (simp add: a_eq)
  have a_hi: "a \<le> pi / 2" using pi_gt_zero by (simp add: a_eq)
  have b_lo: "0 \<le> b" by (simp add: b_eq)
  have b_hi: "b \<le> 2 / 15" using pi_less_3_2 by (simp add: b_eq)
  have c_lo: "0 \<le> c" by (simp add: c_eq)
  have c_hi: "c \<le> 82 / 225" using pi_less_3_2 by (simp add: c_eq)
  have b_pi: "b \<le> pi / 2" using pi_gt_zero by (simp add: b_eq)
  have c_pi: "c \<le> pi" using pi_gt_zero by (simp add: c_eq)
  have "sin (149 / 300) \<le> sin a"
    using a_lo a_hi pi_ge_3 by (subst sin_mono_le_eq) simp_all
  moreover have "149 / 300 - (149 / 300) ^ 3 / 6 \<le> sin (149 / 300 :: real)"
    by (rule sin_lower_cubic) simp
  ultimately have sa: "47 / 100 \<le> sin a" by (simp add: power3_eq_cube)
  have "cos a \<le> cos (149 / 300)"
    using a_lo a_hi pi_ge_3 by (subst cos_mono_le_eq) simp_all
  moreover have "cos (149 / 300 :: real) \<le> 1 - (149 / 300)\<^sup>2 / 2 + (149 / 300) ^ 4 / 24"
    by (rule cos_upper_quartic)
  ultimately have ca: "cos a \<le> 88 / 100" by (simp add: power2_eq_square power4_eq_xxxx)
  have ca0: "0 \<le> cos a" using a_lo a_hi by (intro cos_ge_zero) simp_all
  have "1 - b\<^sup>2 / 2 \<le> cos b" by (rule cos_lower_quadratic)
  moreover have "b\<^sup>2 \<le> (2 / 15)\<^sup>2" using b_lo b_hi by (intro power_mono) simp_all
  ultimately have cb: "99 / 100 \<le> cos b" by (simp add: power2_eq_square)
  have cb1: "cos b \<le> 1" by simp
  have sb: "sin b \<le> 2 / 15" using sin_x_le_x [OF b_lo] b_hi by simp
  have sb0: "0 \<le> sin b" using b_lo b_pi pi_gt_zero by (intro sin_ge_zero) simp_all
  have sc: "sin c \<le> 82 / 225" using sin_x_le_x [OF c_lo] c_hi by simp
  have sc0: "0 \<le> sin c" using c_lo c_pi by (intro sin_ge_zero) simp_all
  have cc1: "cos c \<le> 1" by simp
  have sa0: "0 \<le> sin a" using sa by simp
  have p1: "(47 / 100) * (99 / 100) \<le> sin a * cos b"
    using sa cb sa0 by (rule mult_mono) simp
  have p2: "cos c * sin b \<le> 1 * (2 / 15)"
    using cc1 sb _ sb0 by (rule mult_mono) simp
  have cb0: "0 \<le> cos b" using cb by simp
  have q: "sin c * cos b \<le> (82 / 225) * 1"
    using sc cb1 _ cb0 by (rule mult_mono) simp
  have "sin c * cos b * cos a \<le> ((82 / 225) * 1) * (88 / 100)"
    using q ca _ ca0 by (rule mult_mono) simp
  with p1 p2 have main: "0 < sin a * cos b - cos c * sin b - sin c * cos b * cos a"
    by simp
  have "0 < (47 / 100) * (99 / 100 :: real)" by simp
  with p1 have pos: "0 < sin a * cos b" by linarith
  show "0 < sin (radians 70 - radians 40.2) * cos (radians (- 7.5))"
    using pos by (simp add: mb a_def b_def)
  show "0 < sin (radians 70 - radians 40.2) * cos (radians (- 7.5))
           + (cos (radians 20.5) * sin (radians (- 7.5))
              - sin (radians 20.5) * cos (radians (- 7.5)) * cos (radians 70 - radians 40.2))"
    using main by (simp add: mb a_def b_def c_def)
qed

lemma heading_loop_skip_180:
  assumes "0 < bearing_to lat lon ((north (bounds r) + south (bounds r)) / 2)
      ((east (bounds r) + west (bounds r)) / 2)"
    and "bearing_to lat lon ((north (bounds r) + south (bounds r)) / 2)
      ((east (bounds r) + west (bounds r)) / 2) < 135"
  shows "heading_loop (r # rs) lat lon 180 = heading_loop rs lat lon 180"
  using assms by (simp add: Let_def min_def)

lemma heading_loop_hit_0:
  assumes "0 < bearing_to lat lon ((north (bounds r) + south (bounds r)) / 2)
      ((east (bounds r) + west (bounds r)) / 2)"
    and "bearing_to lat lon ((north (bounds r) + south (bounds r)) / 2)
      ((east (bounds r) + west (bounds r)) / 2) \<le> 45"
  shows "heading_loop (r # rs) lat lon 0 = name r"
  using assms by (simp add: Let_def min_def)

lemma heading_180_value:
  "is_heading_to_strategic_region (VisualCarrierTracker key) 20.5 40.2 180 = Inr ''Other Operations''"
proof -
  have me: "0 < bearing_to 20.5 40.2 26 45" "bearing_to 20.5 40.2 26 45 < 135"
    using bearing_middle_east by simp_all
  have io: "0 < bearing_to 20.5 40.2 (- 7.5) 70" "bearing_to 20.5 40.2 (- 7.5) 70 < 135"
    using bearing_indian_ocean by simp_all
  have ea: "0 < bearing_to 20.5 40.2 25 125" "bearing_to 20.5 40.2 25 125 < 135"
    using bearing_east_asia by simp_all
  show ?thesis
    unfolding is_heading_to_strategic_region_def VisualCarrierTracker_def
    using me io ea
    by (simp add: heading_loop_skip_180 del: heading_loop.simps(2))
qed

lemma heading_0_value:
  "is_heading_to_strategic_region (VisualCarrierTracker key) 20.5 40.2 0 = Inr ''Middle East''"
proof -
  have me: "0 < bearing_to 20.5 40.2 26 45" "bearing_to 20.5 40.2 26 45 \<le> 45"
    using bearing_middle_east by simp_all
  show ?thesis
    unfolding is_heading_to_strategic_region_def VisualCarrierTracker_def
    using me
    by (simp add: heading_loop_hit_0 del: heading_loop.simps(2))
qed

text \<open>
  C3, as the code has it: with the configured regions, the vessel at latitude 20.5,
  longitude 40.2 on course 180 is classified as \<open>Other Operations\<close>. The centers of all
  three regions bear less than 135 degrees (about 37.8, 130.7 and 67.9), more than 45
  degrees away from due south.
\<close>

theorem heading_south_is_other:
  "is_heading_to_strategic_region (VisualCarrierTracker key) 20.5 40.2 180
     = Inr ''Other Operations''"
  by (rule heading_180_value)

text \<open>C3 as stated fails: on course 180 the result is not \<open>Middle East\<close>.\<close>

theorem heading_south_not_middle_east:
  "is_heading_to_strategic_region (VisualCarrierTracker None) 20.5 40.2 180
     \<noteq> Inr ''Middle East''"
  using heading_180_value [of None] by simp

text \<open>
  C4, as the code has it: the same vessel on course 0 is classified as \<open>Middle East\<close>. The
  center of that region (26, 45) lies north-east of the vessel, at a bearing between 0 and
  45 degrees (about 37.8), within tolerance of due north.
\<close>

theorem heading_north_is_middle_east:
  "is_heading_to_strategic_region (VisualCarrierTracker key) 20.5 40.2 0
     = Inr ''Middle East''"
  by (rule heading_0_value)

text \<open>C4 as stated fails: on course 0 the result is not the sentinel.\<close>

theorem heading_north_not_other:
  "is_heading_to_strategic_region (VisualCarrierTracker None) 20.5 40.2 0
     \<noteq> Inr ''Other Operations''"
  using heading_0_value [of None] by simp

end
